theory Spec2Isabelle
  imports Complex_Main "HOL-Library.AList" "HOL-Library.Multiset"
begin

section \<open>dataWave: aggregation and fair-rounding allocation (src/app.js)\<close>

text \<open>
  The two pure functions of \<^verbatim>\<open>src/app.js\<close>, \<^verbatim>\<open>aggregateAndNormalize\<close> and
  \<^verbatim>\<open>distributeWaves\<close>, and the guard of their caller \<^verbatim>\<open>renderChart\<close>.

  Conventions of the embedding.
  \<^item> A JavaScript number is an exact rational (\<^typ>\<open>rat\<close>), an integer-valued one
    (year, class, rank, wave count, budget) an \<^typ>\<open>int\<close>. Rounding, NaN and the
    infinities of IEEE doubles are outside the model.
  \<^item> An object used as a dictionary is an association list of its own properties with
    pairwise distinct keys; writing a property is \<^const>\<open>AList.update\<close> (an existing key
    keeps its place, a new key goes last). Only lookups and sums over the values are
    used below, never the enumeration order of integer-like keys. Keys that would hit
    an inherited property of \<^verbatim>\<open>Object.prototype\<close> are outside the model.
  \<^item> The key \<^verbatim>\<open>`${yr}|${cls}`\<close> of \<^verbatim>\<open>byYearClass\<close> is the pair \<open>(yr, cls)\<close>.
  \<^item> A \<^verbatim>\<open>Set\<close> is the list of its elements in insertion order.
  \<^item> A call that throws returns \<open>Inl\<close> of the error; the loop of \<^verbatim>\<open>distributeWaves\<close>
    may run forever, so its result is an \<open>option\<close>: \<open>None\<close> is a call that never
    returns.
\<close>

subsection \<open>Data\<close>

text \<open>A record of \<^verbatim>\<open>data.json\<close>, with the fields the code reads.\<close>

record rawRecord =
  year :: int
  class_num :: int
  state_code :: string
  state_name :: string
  subregion_name :: string
  value_contribution_to_class :: rat
  state_rank_per_class :: int
  pct_missing_values :: rat

text \<open>
  The objects built by the code share the fields \<^verbatim>\<open>stateName\<close>, \<^verbatim>\<open>subregion\<close>,
  \<^verbatim>\<open>rank\<close> and \<^verbatim>\<open>missing\<close>: the accumulator of the first pass adds \<^verbatim>\<open>rawSum\<close>, the
  normalised value adds \<^verbatim>\<open>share\<close>, an entry of \<^verbatim>\<open>renderChart\<close> adds \<^verbatim>\<open>stateCode\<close>
  and \<^verbatim>\<open>distributeWaves\<close> spreads an entry and adds \<^verbatim>\<open>exact\<close>, \<^verbatim>\<open>count\<close>, \<^verbatim>\<open>rem\<close>.
\<close>

record info =
  stateName :: string
  subregion :: string
  rank :: int
  missing :: rat

record stateAgg = info +
  rawSum :: rat

record stateShare = info +
  share :: rat

record entry = stateShare +
  stateCode :: string

record item = entry +
  exact :: rat
  count :: int
  rem :: rat

datatype error = TypeError

type_synonym bucketAgg = "(string \<times> stateAgg) list"
type_synonym bucket = "(string \<times> stateShare) list"
type_synonym stateTable = "(int \<times> (int \<times> bucketAgg) list) list"

record aggState =
  byYearClassState :: stateTable
  yearsSet :: "int list"
  classesSet :: "int list"

record aggregated =
  byYearClass :: "((int \<times> int) \<times> bucket) list"
  years :: "int list"
  classes :: "int list"

subsection \<open>Objects and sets\<close>

text \<open>\<^verbatim>\<open>obj[k]\<close>, with the default \<open>d\<close> of \<^verbatim>\<open>obj[k] ||= d\<close> and \<^verbatim>\<open>obj[k] || d\<close>.\<close>

definition getOr :: "'v \<Rightarrow> ('k \<times> 'v) list \<Rightarrow> 'k \<Rightarrow> 'v" where
  "getOr d obj k = (case map_of obj k of None \<Rightarrow> d | Some v \<Rightarrow> v)"

text \<open>\<^verbatim>\<open>Object.fromEntries\<close>: the pairs are written in order, a later pair overwrites.\<close>

definition fromEntries :: "('k \<times> 'v) list \<Rightarrow> ('k \<times> 'v) list" where
  "fromEntries kvs = foldl (\<lambda>obj (k, v). AList.update k v obj) [] kvs"

text \<open>\<^verbatim>\<open>Set.prototype.add\<close>.\<close>

definition setAdd :: "'a \<Rightarrow> 'a list \<Rightarrow> 'a list" where
  "setAdd x s = (if x \<in> set s then s else s @ [x])"

subsection \<open>aggregateAndNormalize\<close>

text \<open>The body of \<^verbatim>\<open>raw.forEach(d => ...)\<close>, lines 62 to 81.\<close>

definition visit :: "aggState \<Rightarrow> rawRecord \<Rightarrow> aggState" where
  "visit st d =
     (let tbl = byYearClassState st;
          clss = getOr [] tbl (year d);
          bkt = getOr [] clss (class_num d);
          old = getOr \<lparr>stateName = state_name d, subregion = subregion_name d,
                        rank = state_rank_per_class d, missing = pct_missing_values d,
                        rawSum = 0\<rparr> bkt (state_code d);
          new = old\<lparr>rawSum := rawSum old + value_contribution_to_class d,
                    rank := state_rank_per_class d,
                    missing := pct_missing_values d\<rparr>
      in \<lparr>byYearClassState =
            AList.update (year d)
              (AList.update (class_num d) (AList.update (state_code d) new bkt) clss) tbl,
          yearsSet = setAdd (year d) (yearsSet st),
          classesSet = setAdd (class_num d) (classesSet st)\<rparr>)"

definition firstPass :: "rawRecord list \<Rightarrow> aggState" where
  "firstPass raw = foldl visit \<lparr>byYearClassState = [], yearsSet = [], classesSet = []\<rparr> raw"

text \<open>The normalisation of one bucket, lines 88 to 100.\<close>

definition bucketTotal :: "bucketAgg \<Rightarrow> rat" where
  "bucketTotal states =
     (let t = foldl (\<lambda>s st. s + rawSum st) 0 (map snd states)
      in if t = 0 then 1 else t)"

definition normalizeBucket :: "bucketAgg \<Rightarrow> bucket" where
  "normalizeBucket states =
     fromEntries (map (\<lambda>(sc, s).
        (sc, \<lparr>stateName = stateName s, subregion = subregion s, rank = rank s,
              missing = missing s, share = rawSum s / bucketTotal states\<rparr>)) states)"

text \<open>The two nested \<^verbatim>\<open>forEach\<close> of lines 85 to 102.\<close>

definition normalizeAll :: "stateTable \<Rightarrow> ((int \<times> int) \<times> bucket) list" where
  "normalizeAll tbl =
     foldl (\<lambda>acc (yr, clss).
        foldl (\<lambda>acc (cls, states). AList.update (yr, cls) (normalizeBucket states) acc)
          acc clss) [] tbl"

definition aggregateAndNormalize :: "rawRecord list \<Rightarrow> aggregated" where
  "aggregateAndNormalize raw =
     (let st = firstPass raw
      in \<lparr>byYearClass = normalizeAll (byYearClassState st),
          years = sort (yearsSet st),
          classes = sort (classesSet st)\<rparr>)"

subsection \<open>distributeWaves\<close>

text \<open>Lines 113 to 119: the exact value, the base count and the remainder of one entry.\<close>

definition floorItem :: "int \<Rightarrow> entry \<Rightarrow> item" where
  "floorItem totalWaves e =
     (let ex = share e * of_int totalWaves;
          base = (if share e > 0 then max 1 \<lfloor>ex\<rfloor> else 0)
      in \<lparr>stateName = stateName e, subregion = subregion e, rank = rank e,
          missing = missing e, share = share e, stateCode = stateCode e,
          exact = ex, count = base, rem = ex - of_int \<lfloor>ex\<rfloor>\<rparr>)"

text \<open>
  The loop of lines 124 to 129, from index \<open>i\<close>. Reading \<^verbatim>\<open>floored[i]\<close> outside the
  array gives \<^verbatim>\<open>undefined\<close>, and \<^verbatim>\<open>it.share\<close> then throws a TypeError; this happens
  only for the empty array, at \<open>i = 0\<close>.
\<close>

partial_function (option) walk :: "nat \<Rightarrow> int \<Rightarrow> item list \<Rightarrow> (error + item list) option" where
  "walk i delta floored =
     (if delta = 0 then Some (Inr floored)
      else if length floored \<le> i then Some (Inl TypeError)
      else if share (floored ! i) = 0 then walk ((i + 1) mod length floored) delta floored
      else if delta > 0 then
        walk ((i + 1) mod length floored) (delta - 1)
          (floored[i := (floored ! i)\<lparr>count := count (floored ! i) + 1\<rparr>])
      else if count (floored ! i) > 1 then
        walk ((i + 1) mod length floored) (delta + 1)
          (floored[i := (floored ! i)\<lparr>count := count (floored ! i) - 1\<rparr>])
      else walk ((i + 1) mod length floored) delta floored)"

declare walk.simps [code]

text \<open>
  \<^verbatim>\<open>floored.sort((a, b) => b.rem - a.rem)\<close> is a stable sort, descending by \<^verbatim>\<open>rem\<close>.
\<close>

definition distributeWaves :: "entry list \<Rightarrow> int \<Rightarrow> (error + (string \<times> int) list) option" where
  "distributeWaves entries totalWaves =
     (let floored = map (floorItem totalWaves) entries;
          assigned = foldl (\<lambda>a x. a + count x) 0 floored;
          delta = totalWaves - assigned;
          sorted = sort_key (\<lambda>x. - rem x) floored
      in map_option (map_sum id (\<lambda>fl. fromEntries (map (\<lambda>x. (stateCode x, count x)) fl)))
           (walk 0 delta sorted))"

subsection \<open>renderChart\<close>

text \<open>
  Of \<^verbatim>\<open>renderChart\<close> (lines 197 to 246) the part before the DOM is written: the lookup of
  the bucket, the entries, the guard on an empty list, the sort and the allocation.
  \<^verbatim>\<open>String.prototype.localeCompare\<close> is a parameter; the sort is stable.
\<close>

definition WAVE_COUNT :: int where
  "WAVE_COUNT = 100"

fun insertBy :: "('a \<Rightarrow> 'a \<Rightarrow> int) \<Rightarrow> 'a \<Rightarrow> 'a list \<Rightarrow> 'a list" where
  "insertBy cmp x [] = [x]"
| "insertBy cmp x (y # ys) = (if cmp x y \<le> 0 then x # y # ys else y # insertBy cmp x ys)"

definition sortBy :: "('a \<Rightarrow> 'a \<Rightarrow> int) \<Rightarrow> 'a list \<Rightarrow> 'a list" where
  "sortBy cmp xs = foldr (insertBy cmp) xs []"

datatype chart = NoData | Waves "(error + (string \<times> int) list) option"

definition entriesOf :: "bucket \<Rightarrow> entry list" where
  "entriesOf bkt =
     map (\<lambda>(sc, i). \<lparr>stateName = stateName i, subregion = subregion i, rank = rank i,
                     missing = missing i, share = share i, stateCode = sc\<rparr>) bkt"

definition renderChart ::
  "(string \<Rightarrow> string \<Rightarrow> int) \<Rightarrow> ((int \<times> int) \<times> bucket) list \<Rightarrow> int \<Rightarrow> int \<Rightarrow> chart" where
  "renderChart localeCompare byYC currentYear cls =
     (let entries = entriesOf (getOr [] byYC (currentYear, cls))
      in if length entries = 0 then NoData
         else Waves (distributeWaves
                (sortBy (\<lambda>a b. let d = localeCompare (subregion a) (subregion b)
                                in if d \<noteq> 0 then d
                                   else localeCompare (stateName a) (stateName b)) entries)
                WAVE_COUNT))"

subsection \<open>Reading the tables\<close>

text \<open>
  The statements below read the nested objects by their keys: the bucket of a year and a
  class and the accumulator of a state after the first pass, and the normalised value of
  a state in the output.
\<close>

definition bucketAt :: "stateTable \<Rightarrow> int \<Rightarrow> int \<Rightarrow> bucketAgg option" where
  "bucketAt tbl y c = (case map_of tbl y of None \<Rightarrow> None | Some clss \<Rightarrow> map_of clss c)"

definition stateAt :: "stateTable \<Rightarrow> int \<Rightarrow> int \<Rightarrow> string \<Rightarrow> stateAgg option" where
  "stateAt tbl y c s = (case bucketAt tbl y c of None \<Rightarrow> None | Some bkt \<Rightarrow> map_of bkt s)"

definition shareAt :: "((int \<times> int) \<times> bucket) list \<Rightarrow> int \<Rightarrow> int \<Rightarrow> string \<Rightarrow> stateShare option" where
  "shareAt byYC y c s = (case map_of byYC (y, c) of None \<Rightarrow> None | Some bkt \<Rightarrow> map_of bkt s)"




text \<open>The records of one key, of one bucket, and the total of the contributions of records.\<close>

definition keyed :: "int \<Rightarrow> int \<Rightarrow> string \<Rightarrow> rawRecord \<Rightarrow> bool" where
  "keyed y c s d = (year d = y \<and> class_num d = c \<and> state_code d = s)"



text \<open>Short forms of an entry and of a record, for the concrete inputs.\<close>

definition mkEntry :: "string \<Rightarrow> rat \<Rightarrow> entry" where
  "mkEntry sc s = \<lparr>stateName = sc, subregion = [], rank = 0, missing = 0, share = s, stateCode = sc\<rparr>"

definition mkRecord :: "int \<Rightarrow> int \<Rightarrow> string \<Rightarrow> rat \<Rightarrow> int \<Rightarrow> rat \<Rightarrow> rawRecord" where
  "mkRecord y c sc v rk ms =
     \<lparr>year = y, class_num = c, state_code = sc, state_name = sc, subregion_name = [],
      value_contribution_to_class = v, state_rank_per_class = rk, pct_missing_values = ms\<rparr>"

subsection \<open>Invariants of the walk\<close>






text \<open>
  The two states from which the walk cannot return: every share is zero while
  \<open>delta\<close> is not, or the items are well counted and the budget is below the number of
  nonzero shares.
\<close>

definition stuckZero :: "nat \<Rightarrow> int \<Rightarrow> item list \<Rightarrow> error + item list \<Rightarrow> bool" where
  "stuckZero i d xs r = (\<not> (i < length xs \<and> d \<noteq> 0 \<and> (\<forall>x\<in>set xs. share x = 0)))"


text \<open>The array and the sum of the base counts with which the walk starts.\<close>

definition sortedFloor :: "int \<Rightarrow> entry list \<Rightarrow> item list" where
  "sortedFloor B entries = sort_key (\<lambda>x. - rem x) (map (floorItem B) entries)"

definition assignedOf :: "int \<Rightarrow> entry list \<Rightarrow> int" where
  "assignedOf B entries = sum_list (map count (map (floorItem B) entries))"

subsection \<open>Invariants of the first pass\<close>

text \<open>
  The accumulator that the records \<open>rs\<close> of one key build, in input order: name and
  subregion of the first, rank and missing of the last, the sum of the contributions;
  and one step of it.
\<close>

definition accumulated :: "rawRecord list \<Rightarrow> stateAgg option" where
  "accumulated rs =
     (if rs = [] then None
      else Some \<lparr>stateName = state_name (hd rs), subregion = subregion_name (hd rs),
                 rank = state_rank_per_class (last rs), missing = pct_missing_values (last rs),
                 rawSum = sum_list (map value_contribution_to_class rs)\<rparr>)"

definition accumulate :: "stateAgg option \<Rightarrow> rawRecord \<Rightarrow> stateAgg" where
  "accumulate old d =
     (case old of
        None \<Rightarrow> \<lparr>stateName = state_name d, subregion = subregion_name d,
                  rank = state_rank_per_class d, missing = pct_missing_values d,
                  rawSum = 0 + value_contribution_to_class d\<rparr>
      | Some a \<Rightarrow> a\<lparr>rawSum := rawSum a + value_contribution_to_class d,
                     rank := state_rank_per_class d, missing := pct_missing_values d\<rparr>)"

text \<open>The keys of every object of the table are pairwise distinct.\<close>

definition wfBucket :: "('k \<times> 'v) list \<Rightarrow> bool" where
  "wfBucket bkt = distinct (map fst bkt)"

definition wfClasses :: "('c \<times> ('k \<times> 'v) list) list \<Rightarrow> bool" where
  "wfClasses clss = (distinct (map fst clss) \<and> list_all (\<lambda>p. wfBucket (snd p)) clss)"

definition wfTable :: "('y \<times> ('c \<times> ('k \<times> 'v) list) list) list \<Rightarrow> bool" where
  "wfTable tbl = (distinct (map fst tbl) \<and> list_all (\<lambda>p. wfClasses (snd p)) tbl)"

text \<open>The normalised value of one state, given the divisor, and the rawSum total of a bucket.\<close>

definition toShare :: "rat \<Rightarrow> stateAgg \<Rightarrow> stateShare" where
  "toShare t s = \<lparr>stateName = stateName s, subregion = subregion s, rank = rank s,
                  missing = missing s, share = rawSum s / t\<rparr>"


section \<open>Properties of the walk\<close>







lemma walk_undefined: "d \<noteq> 0 \<Longrightarrow> length xs \<le> i \<Longrightarrow> walk i d xs = Some (Inl TypeError)"
  by (subst walk.simps) simp
















lemma walk_stuckZero:
  assumes "walk i d xs = Some r"
  shows "stuckZero i d xs r"
proof (rule walk.raw_induct[where P = stuckZero, OF _ assms], goal_cases)
  case (1 walk' i d xs r)
  show ?case unfolding stuckZero_def
  proof
    assume a: "i < length xs \<and> d \<noteq> 0 \<and> (\<forall>x\<in>set xs. share x = 0)"
    then have "share (xs ! i) = 0" by simp
    with a 1(2) have "walk' ((i + 1) mod length xs) d xs = Some r" by simp
    moreover from a have "0 < length xs" by auto
    then have "(i + 1) mod length xs < length xs" by simp
    ultimately show False using 1(1) a unfolding stuckZero_def by blast
  qed
qed

lemma walk_all_zero_never:
  assumes "i < length xs" "d \<noteq> 0" "\<forall>x\<in>set xs. share x = 0"
  shows "walk i d xs = None"
proof (cases "walk i d xs")
  case None
  then show ?thesis .
next
  case (Some r)
  from walk_stuckZero[OF this] assms show ?thesis by (simp add: stuckZero_def)
qed



section \<open>Properties of distributeWaves\<close>

lemma foldl_add_count: "foldl (\<lambda>a x. a + count x) a xs = a + sum_list (map count xs)"
  by (induction xs arbitrary: a) simp_all


lemma fromEntries_distinct_aux:
  "distinct (map fst (acc @ kvs)) \<Longrightarrow>
   foldl (\<lambda>obj (k, v). AList.update k v obj) acc kvs = acc @ kvs"
proof (induction kvs arbitrary: acc)
  case Nil
  then show ?case by simp
next
  case (Cons kv kvs)
  obtain k v where kv: "kv = (k, v)" by (cases kv)
  from Cons.prems kv have "k \<notin> fst ` set acc" by auto
  then have "AList.update k v acc = acc @ [(k, v)]"
    by (induction acc) auto
  with Cons.IH[of "acc @ [(k, v)]"] Cons.prems kv show ?case by simp
qed

lemma fromEntries_distinct: "distinct (map fst kvs) \<Longrightarrow> fromEntries kvs = kvs"
  using fromEntries_distinct_aux[of "[]" kvs] by (simp add: fromEntries_def)



lemma share_floorItem: "share (floorItem B e) = share e"
  by (simp add: floorItem_def Let_def)

lemma distributeWaves_walk:
  "distributeWaves entries B =
     map_option (map_sum id (\<lambda>fl. fromEntries (map (\<lambda>x. (stateCode x, count x)) fl)))
       (walk 0 (B - assignedOf B entries) (sortedFloor B entries))"
  by (simp add: distributeWaves_def Let_def foldl_add_count sortedFloor_def assignedOf_def)

lemma length_sortedFloor: "length (sortedFloor B entries) = length entries"
  by (simp add: sortedFloor_def)










lemma distributeWaves_all_zero:
  assumes "entries \<noteq> []" "\<forall>e\<in>set entries. share e = 0" "B \<noteq> 0"
  shows "distributeWaves entries B = None"
proof -
  let ?xs = "sortedFloor B entries"
  from assms(1) have 1: "0 < length ?xs" by (simp add: length_sortedFloor)
  from assms(2) have 2: "\<forall>x\<in>set ?xs. share x = 0" by (auto simp: sortedFloor_def share_floorItem)
  from assms(2) have "\<forall>x\<in>set (map (floorItem B) entries). count x = 0"
    by (auto simp: floorItem_def Let_def)
  then have "assignedOf B entries = 0"
    unfolding assignedOf_def by (induction entries) auto
  with assms(3) have "B - assignedOf B entries \<noteq> 0" by simp
  from walk_all_zero_never[OF 1 this 2] show ?thesis by (simp add: distributeWaves_walk)
qed

lemma distributeWaves_empty: "B \<noteq> 0 \<Longrightarrow> distributeWaves [] B = Some (Inl TypeError)"
  by (simp add: distributeWaves_def walk_undefined)


lemma renderChart_guard: "getOr [] byYC (yr, cls) = [] \<Longrightarrow> renderChart cmp byYC yr cls = NoData"
  by (simp add: renderChart_def entriesOf_def)

section \<open>Properties of aggregateAndNormalize\<close>

lemma bucketAt_visit:
  "bucketAt (byYearClassState (visit st d)) y c =
     (if year d = y \<and> class_num d = c
      then Some (AList.update (state_code d)
                  (accumulate (stateAt (byYearClassState st) y c (state_code d)) d)
                  (getOr [] (getOr [] (byYearClassState st) y) c))
      else bucketAt (byYearClassState st) y c)"
  by (auto simp: visit_def Let_def bucketAt_def stateAt_def getOr_def accumulate_def update_conv'
      split: option.splits)

lemma stateAt_visit:
  "stateAt (byYearClassState (visit st d)) y c s =
     (if keyed y c s d then Some (accumulate (stateAt (byYearClassState st) y c s) d)
      else stateAt (byYearClassState st) y c s)"
  unfolding stateAt_def[of "byYearClassState (visit st d)"] bucketAt_visit
  by (auto simp: keyed_def update_conv' getOr_def stateAt_def bucketAt_def split: option.splits)

lemma firstPass_snoc: "firstPass (raw @ [d]) = visit (firstPass raw) d"
  by (simp add: firstPass_def)

lemma accumulate_accumulated:
  "accumulate (accumulated rs) d = the (accumulated (rs @ [d]))"
  by (cases rs) (simp_all add: accumulate_def accumulated_def)

lemma stateAt_firstPass:
  "stateAt (byYearClassState (firstPass raw)) y c s = accumulated (filter (keyed y c s) raw)"
proof (induction raw rule: rev_induct)
  case Nil
  then show ?case by (simp add: firstPass_def stateAt_def bucketAt_def accumulated_def)
next
  case (snoc d raw)
  show ?case
  proof (cases "keyed y c s d")
    case True
    have "accumulated (filter (keyed y c s) raw @ [d]) \<noteq> None" by (simp add: accumulated_def)
    with True snoc show ?thesis
      by (auto simp add: firstPass_snoc stateAt_visit accumulate_accumulated)
  next
    case False
    with snoc show ?thesis by (simp add: firstPass_snoc stateAt_visit)
  qed
qed

lemma list_all_update:
  "list_all (\<lambda>p. P (snd p)) al \<Longrightarrow> P v \<Longrightarrow> list_all (\<lambda>p. P (snd p)) (AList.update k v al)"
  by (induction al) auto

lemma list_all_getOr:
  assumes "list_all (\<lambda>p. P (snd p)) al" "P d"
  shows "P (getOr d al k)"
proof (cases "map_of al k")
  case None
  with assms(2) show ?thesis by (simp add: getOr_def)
next
  case (Some v)
  then have "(k, v) \<in> set al" by (rule map_of_SomeD)
  with assms(1) have "P v" by (auto simp: list_all_iff)
  with Some show ?thesis by (simp add: getOr_def)
qed

lemma wfTable_visit:
  assumes "wfTable (byYearClassState st)"
  shows "wfTable (byYearClassState (visit st d))"
proof -
  let ?tbl = "byYearClassState st"
  let ?clss = "getOr [] ?tbl (year d)"
  let ?bkt = "getOr [] ?clss (class_num d)"
  from assms have t: "distinct (map fst ?tbl)" "list_all (\<lambda>p. wfClasses (snd p)) ?tbl"
    by (simp_all add: wfTable_def)
  have "wfClasses []" by (simp add: wfClasses_def)
  from list_all_getOr[OF t(2) this] have c: "wfClasses ?clss" .
  then have c': "distinct (map fst ?clss)" "list_all (\<lambda>p. wfBucket (snd p)) ?clss"
    by (simp_all add: wfClasses_def)
  have "wfBucket []" by (simp add: wfBucket_def)
  from list_all_getOr[OF c'(2) this] have b: "wfBucket ?bkt" .
  have b': "wfBucket (AList.update k v ?bkt)" for k v
    using b by (simp add: wfBucket_def distinct_update)
  have "wfClasses (AList.update k (AList.update k' v ?bkt) ?clss)" for k k' v
    using c' b' by (simp add: wfClasses_def distinct_update list_all_update)
  with t show ?thesis
    by (simp add: visit_def Let_def wfTable_def distinct_update list_all_update)
qed

lemma wfTable_firstPass: "wfTable (byYearClassState (firstPass raw))"
proof (induction raw rule: rev_induct)
  case Nil
  then show ?case by (simp add: firstPass_def wfTable_def)
next
  case (snoc d raw)
  then show ?case by (simp add: firstPass_snoc wfTable_visit)
qed

lemma wfBucket_bucketAt:
  assumes "wfTable tbl" "bucketAt tbl y c = Some bkt"
  shows "wfBucket bkt"
proof -
  from assms(2) obtain clss where 1: "map_of tbl y = Some clss" and 2: "map_of clss c = Some bkt"
    by (auto simp: bucketAt_def split: option.splits)
  from 1 assms(1) have "wfClasses clss"
    by (auto simp: wfTable_def list_all_iff dest: map_of_SomeD)
  with 2 show ?thesis
    by (auto simp: wfClasses_def list_all_iff dest: map_of_SomeD)
qed

lemma map_of_rev_distinct: "distinct (map fst xs) \<Longrightarrow> map_of (rev xs) k = map_of xs k"
proof (induction xs)
  case Nil
  then show ?case by simp
next
  case (Cons p xs)
  obtain a b where p: "p = (a, b)" by (cases p)
  from Cons.prems p have "a \<notin> fst ` set xs" by simp
  then have none: "map_of xs a = None" by (simp add: map_of_eq_None_iff)
  from Cons.prems have IH: "map_of (rev xs) k = map_of xs k" by (simp add: Cons.IH)
  show ?case
  proof (cases "k = a")
    case True
    with none IH p show ?thesis by (simp add: map_add_def)
  next
    case False
    with IH p show ?thesis by (simp add: map_add_def split: option.splits)
  qed
qed

lemma normalize_inner:
  "map_of (foldl (\<lambda>acc (cls, states). AList.update (yr, cls) (f states) acc) acc clss) (y, c) =
     (if y = yr then (case map_of (rev clss) c of None \<Rightarrow> map_of acc (y, c) | Some states \<Rightarrow> Some (f states))
      else map_of acc (y, c))"
  by (induction clss rule: rev_induct) (auto simp: update_conv' split: option.splits)

lemma normalizeAll_aux:
  assumes "wfTable tbl"
  shows "map_of (foldl (\<lambda>acc (yr, clss).
            foldl (\<lambda>acc (cls, states). AList.update (yr, cls) (f states) acc) acc clss) [] tbl) (y, c)
         = map_option f (bucketAt tbl y c)"
  using assms
proof (induction tbl rule: rev_induct)
  case Nil
  then show ?case by (simp add: bucketAt_def)
next
  case (snoc p tbl)
  obtain yr clss where p: "p = (yr, clss)" by (cases p)
  from snoc.prems p have wf: "wfTable tbl" and new: "yr \<notin> fst ` set tbl" and cl: "distinct (map fst clss)"
    by (auto simp: wfTable_def wfClasses_def)
  from new have none: "map_of tbl yr = None" by (simp add: map_of_eq_None_iff)
  from cl have rev: "map_of (rev clss) c = map_of clss c" by (rule map_of_rev_distinct)
  show ?case
  proof (cases "y = yr")
    case True
    with none p snoc.IH[OF wf] show ?thesis
      by (auto simp: normalize_inner rev bucketAt_def split: option.splits)
  next
    case False
    with p snoc.IH[OF wf] show ?thesis
      by (auto simp: normalize_inner bucketAt_def map_add_def split: option.splits)
  qed
qed

lemma map_of_normalizeAll:
  "wfTable tbl \<Longrightarrow> map_of (normalizeAll tbl) (y, c) = map_option normalizeBucket (bucketAt tbl y c)"
  unfolding normalizeAll_def by (rule normalizeAll_aux)



lemma normalizeBucket_map:
  assumes "wfBucket states"
  shows "normalizeBucket states = map (\<lambda>(sc, s). (sc, toShare (bucketTotal states) s)) states"
proof -
  let ?kvs = "map (\<lambda>(sc, s). (sc, toShare (bucketTotal states) s)) states"
  have "map fst ?kvs = map fst states" by (induction states) auto
  with assms have "distinct (map fst ?kvs)" by (simp only: wfBucket_def)
  from fromEntries_distinct[OF this] show ?thesis
    by (simp add: normalizeBucket_def toShare_def)
qed

lemma map_of_normalizeBucket:
  "wfBucket states \<Longrightarrow>
   map_of (normalizeBucket states) s = map_option (toShare (bucketTotal states)) (map_of states s)"
  by (simp add: normalizeBucket_map map_of_map)


lemma byYearClass_aggregate:
  "map_of (byYearClass (aggregateAndNormalize raw)) (y, c) =
     map_option normalizeBucket (bucketAt (byYearClassState (firstPass raw)) y c)"
  by (simp add: aggregateAndNormalize_def Let_def map_of_normalizeAll[OF wfTable_firstPass])

lemma shareAt_aggregate:
  "shareAt (byYearClass (aggregateAndNormalize raw)) y c s =
     (case bucketAt (byYearClassState (firstPass raw)) y c of
        None \<Rightarrow> None
      | Some states \<Rightarrow> map_option (toShare (bucketTotal states)) (map_of states s))"
  by (auto simp: shareAt_def byYearClass_aggregate map_of_normalizeBucket
        wfBucket_bucketAt[OF wfTable_firstPass] split: option.splits)






lemma set_setAdd: "set (setAdd x s) = insert x (set s)"
  by (auto simp: setAdd_def)

lemma distinct_setAdd: "distinct s \<Longrightarrow> distinct (setAdd x s)"
  by (simp add: setAdd_def)

lemma yearsSet_firstPass:
  "set (yearsSet (firstPass raw)) = year ` set raw \<and> distinct (yearsSet (firstPass raw))"
proof (induction raw rule: rev_induct)
  case Nil
  then show ?case by (simp add: firstPass_def)
next
  case (snoc d raw)
  then show ?case by (simp add: firstPass_snoc visit_def Let_def set_setAdd distinct_setAdd)
qed

lemma classesSet_firstPass:
  "set (classesSet (firstPass raw)) = class_num ` set raw \<and> distinct (classesSet (firstPass raw))"
proof (induction raw rule: rev_induct)
  case Nil
  then show ?case by (simp add: firstPass_def)
next
  case (snoc d raw)
  then show ?case by (simp add: firstPass_snoc visit_def Let_def set_setAdd distinct_setAdd)
qed

lemma years_aggregate:
  "years (aggregateAndNormalize raw) = sorted_list_of_set (year ` set raw)"
proof -
  let ?ys = "sort (yearsSet (firstPass raw))"
  from yearsSet_firstPass[of raw] have "sorted ?ys" "distinct ?ys" "set ?ys = year ` set raw"
    by simp_all
  from sorted_list_of_set.idem_if_sorted_distinct[OF this(1,2)] this(3)
  show ?thesis by (simp add: aggregateAndNormalize_def Let_def)
qed

lemma classes_aggregate:
  "classes (aggregateAndNormalize raw) = sorted_list_of_set (class_num ` set raw)"
proof -
  let ?ys = "sort (classesSet (firstPass raw))"
  from classesSet_firstPass[of raw] have "sorted ?ys" "distinct ?ys" "set ?ys = class_num ` set raw"
    by simp_all
  from sorted_list_of_set.idem_if_sorted_distinct[OF this(1,2)] this(3)
  show ?thesis by (simp add: aggregateAndNormalize_def Let_def)
qed



section \<open>The claims on distributeWaves\<close>













text \<open>
  Claim C10. With a positive budget and no entry of nonzero share,
  \<^const>\<open>distributeWaves\<close> returns no object: on the empty list the first read
  \<^verbatim>\<open>floored[0]\<close> is undefined and the call throws, on a nonempty list the loop never
  reaches \<open>delta = 0\<close>. \<^const>\<open>renderChart\<close> returns before the allocation when the
  selected bucket has no entries.
\<close>

theorem distributeWaves_no_nonzero_share:
  assumes "0 < B" "\<forall>e\<in>set entries. share e = 0"
  shows "(entries = [] \<longrightarrow> distributeWaves entries B = Some (Inl TypeError)) \<and>
         (entries \<noteq> [] \<longrightarrow> distributeWaves entries B = None) \<and>
         (\<forall>m. distributeWaves entries B \<noteq> Some (Inr m)) \<and>
         (getOr [] byYC (yr, cls) = [] \<longrightarrow> renderChart cmp byYC yr cls = NoData)"
proof -
  from assms(1) have B: "B \<noteq> 0" by simp
  have 1: "entries = [] \<longrightarrow> distributeWaves entries B = Some (Inl TypeError)"
    using distributeWaves_empty[OF B] by simp
  have 2: "entries \<noteq> [] \<longrightarrow> distributeWaves entries B = None"
    using distributeWaves_all_zero[OF _ assms(2) B] by simp
  from 1 2 have 3: "\<forall>m. distributeWaves entries B \<noteq> Some (Inr m)"
    by (cases "entries = []") simp_all
  from 1 2 3 renderChart_guard show ?thesis by blast
qed

theorem distributeWaves_no_nonzero_share_witness:
  "(0::int) < 100 \<and> list_all (\<lambda>e. share e = 0) ([] :: entry list) \<and>
   list_all (\<lambda>e. share e = 0) [mkEntry ''FJ'' 0, mkEntry ''PG'' 0] \<and>
   [mkEntry ''FJ'' 0, mkEntry ''PG'' 0] \<noteq> [] \<and>
   distributeWaves [] 100 = Some (Inl TypeError) \<and>
   distributeWaves [mkEntry ''FJ'' 0, mkEntry ''PG'' 0] 100 = None \<and>
   getOr [] ([] :: ((int \<times> int) \<times> bucket) list) (2022, 1) = [] \<and>
   renderChart (\<lambda>a b. 0) [] 2022 1 = NoData"
proof -
  let ?ex = "[mkEntry ''FJ'' 0, mkEntry ''PG'' 0]"
  have h1: "(0::int) < 100" by simp
  have h2: "\<forall>e\<in>set ([] :: entry list). share e = 0" by simp
  have h3: "\<forall>e\<in>set ?ex. share e = 0" by (simp add: mkEntry_def)
  have h4: "?ex \<noteq> []" by simp
  have h5: "getOr [] ([] :: ((int \<times> int) \<times> bucket) list) (2022, 1) = []" by (simp add: getOr_def)
  from distributeWaves_no_nonzero_share[OF h1 h2, of "[]" 2022 1 "\<lambda>a b. 0"] h5
  have a: "distributeWaves [] 100 = Some (Inl TypeError)" "renderChart (\<lambda>a b. 0) [] 2022 1 = NoData"
    by blast+
  from distributeWaves_no_nonzero_share[OF h1 h3, of "[]" 2022 1 "\<lambda>a b. 0"] h4
  have b: "distributeWaves ?ex 100 = None" by blast
  from h1 h2 h3 h4 h5 a b show ?thesis unfolding list_all_iff by blast
qed

section \<open>The claims on aggregateAndNormalize\<close>






text \<open>
  Claim C7. The years and the classes returned by \<^const>\<open>aggregateAndNormalize\<close> are
  the year values and the class identifiers of the records, each once and in ascending
  order, and two record lists that are permutations of each other give the same two
  sequences.
\<close>

theorem years_classes_sorted_distinct:
  "sorted (years (aggregateAndNormalize raw)) \<and> distinct (years (aggregateAndNormalize raw)) \<and>
   set (years (aggregateAndNormalize raw)) = year ` set raw \<and>
   sorted (classes (aggregateAndNormalize raw)) \<and> distinct (classes (aggregateAndNormalize raw)) \<and>
   set (classes (aggregateAndNormalize raw)) = class_num ` set raw \<and>
   (mset raw' = mset raw \<longrightarrow>
      years (aggregateAndNormalize raw') = years (aggregateAndNormalize raw) \<and>
      classes (aggregateAndNormalize raw') = classes (aggregateAndNormalize raw))"
proof -
  have "mset raw' = mset raw \<Longrightarrow> set raw' = set raw" by (rule mset_eq_setD)
  then show ?thesis by (auto simp: years_aggregate classes_aggregate)
qed

theorem years_classes_sorted_distinct_witness:
  "mset [mkRecord 2021 1 ''PG'' (1/2) 2 0, mkRecord 2022 2 ''FJ'' (1/4) 6 0, mkRecord 2021 2 ''FJ'' 1 1 0]
     = mset [mkRecord 2022 2 ''FJ'' (1/4) 6 0, mkRecord 2021 2 ''FJ'' 1 1 0, mkRecord 2021 1 ''PG'' (1/2) 2 0] \<and>
   years (aggregateAndNormalize
     [mkRecord 2022 2 ''FJ'' (1/4) 6 0, mkRecord 2021 2 ''FJ'' 1 1 0, mkRecord 2021 1 ''PG'' (1/2) 2 0])
     = [2021, 2022] \<and>
   classes (aggregateAndNormalize
     [mkRecord 2022 2 ''FJ'' (1/4) 6 0, mkRecord 2021 2 ''FJ'' 1 1 0, mkRecord 2021 1 ''PG'' (1/2) 2 0])
     = [1, 2] \<and>
   years (aggregateAndNormalize
     [mkRecord 2021 1 ''PG'' (1/2) 2 0, mkRecord 2022 2 ''FJ'' (1/4) 6 0, mkRecord 2021 2 ''FJ'' 1 1 0])
     = [2021, 2022] \<and>
   classes (aggregateAndNormalize
     [mkRecord 2021 1 ''PG'' (1/2) 2 0, mkRecord 2022 2 ''FJ'' (1/4) 6 0, mkRecord 2021 2 ''FJ'' 1 1 0])
     = [1, 2]"
proof -
  let ?raw = "[mkRecord 2022 2 ''FJ'' (1/4) 6 0, mkRecord 2021 2 ''FJ'' 1 1 0, mkRecord 2021 1 ''PG'' (1/2) 2 0]"
  let ?raw' = "[mkRecord 2021 1 ''PG'' (1/2) 2 0, mkRecord 2022 2 ''FJ'' (1/4) 6 0, mkRecord 2021 2 ''FJ'' 1 1 0]"
  have h: "mset ?raw' = mset ?raw" by (simp add: add.commute)
  have e1: "years (aggregateAndNormalize ?raw) = [2021, 2022]" by code_simp
  have e2: "classes (aggregateAndNormalize ?raw) = [1, 2]" by code_simp
  from years_classes_sorted_distinct[of ?raw ?raw'] h e1 e2 show ?thesis by simp
qed

text \<open>
  Claim C8. Every (year, class, state) aggregate of the first pass comes from at least
  one record with that key; its rank and missing are those of the last such record in
  input order, its rawSum is the sum over all such records, and the output keeps the
  same rank and missing for that key.
\<close>

theorem rank_missing_last_write_wins:
  assumes "stateAt (byYearClassState (firstPass raw)) y c s = Some a"
  shows "filter (keyed y c s) raw \<noteq> [] \<and>
         rank a = state_rank_per_class (last (filter (keyed y c s) raw)) \<and>
         missing a = pct_missing_values (last (filter (keyed y c s) raw)) \<and>
         rawSum a = sum_list (map value_contribution_to_class (filter (keyed y c s) raw)) \<and>
         map_option rank (shareAt (byYearClass (aggregateAndNormalize raw)) y c s) = Some (rank a) \<and>
         map_option missing (shareAt (byYearClass (aggregateAndNormalize raw)) y c s) = Some (missing a)"
proof -
  from assms have acc: "accumulated (filter (keyed y c s) raw) = Some a"
    by (simp add: stateAt_firstPass)
  then have ne: "filter (keyed y c s) raw \<noteq> []"
    by (auto simp: accumulated_def split: if_splits)
  with acc have a: "a = \<lparr>stateName = state_name (hd (filter (keyed y c s) raw)),
      subregion = subregion_name (hd (filter (keyed y c s) raw)),
      rank = state_rank_per_class (last (filter (keyed y c s) raw)),
      missing = pct_missing_values (last (filter (keyed y c s) raw)),
      rawSum = sum_list (map value_contribution_to_class (filter (keyed y c s) raw))\<rparr>"
    by (simp add: accumulated_def)
  from assms have out: "map_option rank (shareAt (byYearClass (aggregateAndNormalize raw)) y c s) = Some (rank a)"
    "map_option missing (shareAt (byYearClass (aggregateAndNormalize raw)) y c s) = Some (missing a)"
    by (auto simp: shareAt_aggregate stateAt_def toShare_def split: option.splits)
  from ne out show ?thesis by (simp add: a)
qed

theorem rank_missing_last_write_wins_witness:
  "stateAt (byYearClassState (firstPass
      [mkRecord 2022 2 ''FJ'' (1/4) 6 0, mkRecord 2021 1 ''PG'' (1/2) 2 0,
       mkRecord 2022 2 ''PG'' (1/2) 3 (1/10), mkRecord 2022 2 ''FJ'' (1/4) 5 (1/5)])) 2022 2 ''FJ''
     = Some \<lparr>stateName = ''FJ'', subregion = [], rank = 5, missing = 1/5, rawSum = 1/2\<rparr> \<and>
   last (filter (keyed 2022 2 ''FJ'')
      [mkRecord 2022 2 ''FJ'' (1/4) 6 0, mkRecord 2021 1 ''PG'' (1/2) 2 0,
       mkRecord 2022 2 ''PG'' (1/2) 3 (1/10), mkRecord 2022 2 ''FJ'' (1/4) 5 (1/5)])
     = mkRecord 2022 2 ''FJ'' (1/4) 5 (1/5) \<and>
   map_option rank (shareAt (byYearClass (aggregateAndNormalize
      [mkRecord 2022 2 ''FJ'' (1/4) 6 0, mkRecord 2021 1 ''PG'' (1/2) 2 0,
       mkRecord 2022 2 ''PG'' (1/2) 3 (1/10), mkRecord 2022 2 ''FJ'' (1/4) 5 (1/5)])) 2022 2 ''FJ'') = Some 5 \<and>
   map_option missing (shareAt (byYearClass (aggregateAndNormalize
      [mkRecord 2022 2 ''FJ'' (1/4) 6 0, mkRecord 2021 1 ''PG'' (1/2) 2 0,
       mkRecord 2022 2 ''PG'' (1/2) 3 (1/10), mkRecord 2022 2 ''FJ'' (1/4) 5 (1/5)])) 2022 2 ''FJ'') = Some (1/5)"
proof -
  let ?raw = "[mkRecord 2022 2 ''FJ'' (1/4) 6 0, mkRecord 2021 1 ''PG'' (1/2) 2 0,
       mkRecord 2022 2 ''PG'' (1/2) 3 (1/10), mkRecord 2022 2 ''FJ'' (1/4) 5 (1/5)]"
  let ?a = "\<lparr>stateName = ''FJ'', subregion = [], rank = 5, missing = 1/5, rawSum = 1/2\<rparr>"
  have h: "stateAt (byYearClassState (firstPass ?raw)) 2022 2 ''FJ'' = Some ?a" by code_simp
  have l: "last (filter (keyed 2022 2 ''FJ'') ?raw) = mkRecord 2022 2 ''FJ'' (1/4) 5 (1/5)"
    by (simp add: keyed_def mkRecord_def)
  from rank_missing_last_write_wins[OF h] h l show ?thesis by simp
qed




end
